theory Spec2Isabelle
  imports Complex_Main "HOL-Library.AList"
begin

section \<open>Python values shared by the four engines\<close>

text \<open>
  Floats of the source (\<^verbatim>\<open>profit_per_hour\<close>, thresholds, clock readings of
  \<^verbatim>\<open>time.time()\<close>) are modelled as exact rationals. Every method of the source
  that reads the clock takes the reading as its first argument \<open>now\<close>; the reads made
  inside one call are taken to observe the same value.
\<close>

text \<open>
  The exceptions that occur: the two the modelled code raises itself, and
  \<open>RuntimeError\<close> for whatever else an external remediation may raise.
\<close>

datatype py_error = ZeroDivisionError | NotImplementedError | RuntimeError

definition py_truediv :: "rat \<Rightarrow> rat \<Rightarrow> py_error + rat" where
  "py_truediv a b = (if b = 0 then Inl ZeroDivisionError else Inr (a / b))"

section \<open>Profit switcher (monitoring/profit\_switcher.py)\<close>

datatype SwitchStrategy = IMMEDIATE | GRADUAL | THRESHOLD | PREDICTIVE

record ProfitabilityData =
  algorithm :: string
  hashrate :: rat
  power_usage :: rat
  revenue_per_hour :: rat
  cost_per_hour :: rat
  profit_per_hour :: rat
  efficiency :: rat
  pd_timestamp :: rat

record ProfitSwitcher =
  switch_strategy :: SwitchStrategy
  switch_threshold :: rat
  min_switch_interval :: rat
  current_algorithm :: "string option"
  profitability_data :: "string \<rightharpoonup> ProfitabilityData"
  switch_history :: "(rat \<times> string \<times> string) list"
  last_switch_time :: rat

text \<open>\<^verbatim>\<open>ProfitSwitcher.__init__\<close>: the three configuration values, then the empty state.\<close>

definition ProfitSwitcher_init :: "SwitchStrategy \<Rightarrow> rat \<Rightarrow> rat \<Rightarrow> ProfitSwitcher" where
  "ProfitSwitcher_init strategy threshold interval =
     \<lparr>switch_strategy = strategy, switch_threshold = threshold,
      min_switch_interval = interval, current_algorithm = None,
      profitability_data = Map.empty, switch_history = [], last_switch_time = 0\<rparr>"

text \<open>
  \<^verbatim>\<open>_get_algorithm_history\<close>: one sample per entry of the switch log that is at most
  \<open>minutes\<close> old and names the algorithm, the sample being the algorithm's present
  \<^verbatim>\<open>profit_per_hour\<close> (no sample when the algorithm has no record).
\<close>

fun history_loop ::
  "rat \<Rightarrow> (string \<rightharpoonup> ProfitabilityData) \<Rightarrow> string \<Rightarrow> (rat \<times> string \<times> string) list \<Rightarrow> rat list" where
  "history_loop cutoff_time pd algo [] = []"
| "history_loop cutoff_time pd algo ((ts, from_algo, to_algo) # rest) =
     (if ts \<ge> cutoff_time \<and> (from_algo = algo \<or> to_algo = algo)
      then (case pd algo of Some d \<Rightarrow> [profit_per_hour d] | None \<Rightarrow> [])
      else []) @ history_loop cutoff_time pd algo rest"

definition get_algorithm_history :: "rat \<Rightarrow> ProfitSwitcher \<Rightarrow> string \<Rightarrow> rat \<Rightarrow> rat list" where
  "get_algorithm_history now s algo minutes =
     history_loop (now - minutes * 60) (profitability_data s) algo (switch_history s)"

text \<open>\<^verbatim>\<open>_calculate_trend\<close>: least-squares slope over the indices \<open>0..n-1\<close>.\<close>

definition calculate_trend :: "rat list \<Rightarrow> py_error + rat" where
  "calculate_trend history =
     (if length history < 2 then Inr 0
      else
        let n = length history;
            x = [0..<n];
            sum_x = sum_list x;
            sum_y = sum_list history;
            sum_xy = sum_list (map (\<lambda>i. of_nat (x ! i) * history ! i) [0..<n]);
            sum_x2 = sum_list (map (\<lambda>i. (x ! i) ^ 2) [0..<n])
        in py_truediv (of_nat n * sum_xy - of_nat sum_x * sum_y)
                      (of_nat n * of_nat sum_x2 - (of_nat sum_x) ^ 2))"

text \<open>The expression bound to the local \<^verbatim>\<open>improvement\<close> in three branches of the source.\<close>

definition improvement :: "ProfitabilityData \<Rightarrow> ProfitabilityData \<Rightarrow> py_error + rat" where
  "improvement current_data new_data =
     py_truediv (profit_per_hour new_data - profit_per_hour current_data)
                (profit_per_hour current_data)"

definition predictive_switch_decision ::
  "rat \<Rightarrow> ProfitSwitcher \<Rightarrow> ProfitabilityData \<Rightarrow> ProfitabilityData \<Rightarrow> py_error + bool" where
  "predictive_switch_decision now s current_data new_data =
     (let current_history = get_algorithm_history now s (algorithm current_data) 30;
          new_history = get_algorithm_history now s (algorithm new_data) 30
      in if length current_history < 3 \<or> length new_history < 3
         then (case improvement current_data new_data of
                 Inl e \<Rightarrow> Inl e
               | Inr imp \<Rightarrow> Inr (imp \<ge> switch_threshold s))
         else (case calculate_trend current_history of
                 Inl e \<Rightarrow> Inl e
               | Inr current_trend \<Rightarrow>
                   (case calculate_trend new_history of
                      Inl e \<Rightarrow> Inl e
                    | Inr new_trend \<Rightarrow>
                        (let current_predicted = profit_per_hour current_data + current_trend * 10;
                             new_predicted = profit_per_hour new_data + new_trend * 10
                         in Inr (new_predicted > current_predicted * (105 / 100))))))"

text \<open>
  \<^verbatim>\<open>_should_switch\<close>. \<^verbatim>\<open>not self.current_algorithm\<close> holds for \<^verbatim>\<open>None\<close> and for
  the empty string; a \<^verbatim>\<open>ProfitabilityData\<close> object is always truthy, so
  \<^verbatim>\<open>not current_data\<close> holds exactly when the dictionary has no record.
\<close>

definition should_switch :: "rat \<Rightarrow> ProfitSwitcher \<Rightarrow> string \<Rightarrow> py_error + bool" where
  "should_switch now s new_algorithm =
     (case current_algorithm s of
        None \<Rightarrow> Inr True
      | Some cur \<Rightarrow>
          if cur = [] then Inr True
          else if cur = new_algorithm then Inr False
          else if now - last_switch_time s < min_switch_interval s then Inr False
          else (case profitability_data s cur of
                  None \<Rightarrow> Inr False
                | Some current_data \<Rightarrow>
                    (case profitability_data s new_algorithm of
                       None \<Rightarrow> Inr False
                     | Some new_data \<Rightarrow>
                         (case switch_strategy s of
                            IMMEDIATE \<Rightarrow>
                              Inr (profit_per_hour new_data > profit_per_hour current_data)
                          | THRESHOLD \<Rightarrow>
                              (case improvement current_data new_data of
                                 Inl e \<Rightarrow> Inl e
                               | Inr imp \<Rightarrow> Inr (imp \<ge> switch_threshold s))
                          | GRADUAL \<Rightarrow>
                              (case improvement current_data new_data of
                                 Inl e \<Rightarrow> Inl e
                               | Inr imp \<Rightarrow> Inr (imp \<ge> switch_threshold s * (1 / 2)))
                          | PREDICTIVE \<Rightarrow>
                              predictive_switch_decision now s current_data new_data))))"

text \<open>\<^verbatim>\<open>record_switch\<close>: append, move the pointer, stamp, keep the last 100 entries.\<close>

definition record_switch :: "rat \<Rightarrow> string \<Rightarrow> string \<Rightarrow> ProfitSwitcher \<Rightarrow> ProfitSwitcher" where
  "record_switch now from_algorithm to_algorithm s =
     (let h = switch_history s @ [(now, from_algorithm, to_algorithm)]
      in s\<lparr>switch_history := (if length h > 100 then drop (length h - 100) h else h),
           current_algorithm := Some to_algorithm,
           last_switch_time := now\<rparr>)"

text \<open>A \<^verbatim>\<open>ProfitabilityData\<close> record carrying a given profit, for concrete runs.\<close>

definition pdata :: "string \<Rightarrow> rat \<Rightarrow> ProfitabilityData" where
  "pdata a p = \<lparr>algorithm = a, hashrate = 0, power_usage = 0, revenue_per_hour = 0,
                cost_per_hour = 0, profit_per_hour = p, efficiency = 0, pd_timestamp = 0\<rparr>"


text \<open>
  The log that \<^verbatim>\<open>record_switch\<close> builds when it is called only for switches that
  \<^verbatim>\<open>_should_switch\<close> has approved at the same clock reading, to a non-empty
  algorithm name; the profitability table may change freely in between.
\<close>

inductive approved_run :: "ProfitSwitcher \<Rightarrow> bool" where
  start: "approved_run (ProfitSwitcher_init strategy threshold interval)"
| update: "approved_run s \<Longrightarrow> approved_run (s\<lparr>profitability_data := pd\<rparr>)"
| switch: "approved_run s \<Longrightarrow> should_switch now s to_algorithm = Inr True \<Longrightarrow>
           to_algorithm \<noteq> [] \<Longrightarrow>
           approved_run (record_switch now from_algorithm to_algorithm s)"

definition spaced :: "rat \<Rightarrow> (rat \<times> string \<times> string) list \<Rightarrow> bool" where
  "spaced ivl h = sorted_wrt (\<lambda>a b. fst b - fst a \<ge> ivl) h"

definition switch_inv :: "ProfitSwitcher \<Rightarrow> bool" where
  "switch_inv s \<longleftrightarrow>
     (\<forall>e \<in> set (switch_history s). fst e \<le> last_switch_time s) \<and>
     (switch_history s \<noteq> [] \<longrightarrow> (\<exists>c. current_algorithm s = Some c \<and> c \<noteq> [])) \<and>
     spaced (min_switch_interval s) (switch_history s)"

text \<open>Concrete switchers for the runs below.\<close>

definition demo_switcher :: "SwitchStrategy \<Rightarrow> rat \<Rightarrow> rat \<Rightarrow> ProfitSwitcher" where
  "demo_switcher strategy cur_profit new_profit =
     (record_switch 1000 ''ethash'' ''sha256'' (ProfitSwitcher_init strategy (1 / 10) 300))
       \<lparr>profitability_data :=
          [''sha256'' \<mapsto> pdata ''sha256'' cur_profit, ''ethash'' \<mapsto> pdata ''ethash'' new_profit]\<rparr>"

definition two_quick_switches :: ProfitSwitcher where
  "two_quick_switches =
     record_switch 1001 ''ethash'' ''randomx''
       (record_switch 1000 ''sha256'' ''ethash'' (ProfitSwitcher_init THRESHOLD (1 / 10) 300))"

definition approved_pair :: ProfitSwitcher where
  "approved_pair =
     record_switch 1400 ''ethash'' ''sha256''
       ((record_switch 1000 ''none'' ''ethash'' (ProfitSwitcher_init THRESHOLD (1 / 10) 300))
          \<lparr>profitability_data :=
             [''ethash'' \<mapsto> pdata ''ethash'' 100, ''sha256'' \<mapsto> pdata ''sha256'' 115]\<rparr>)"

section \<open>Alerting system (monitoring/alerting\_system.py)\<close>

datatype AlertSeverity = INFO | WARNING | ERROR | CRITICAL

datatype AlertStatus = ACTIVE | RESOLVED | SUPPRESSED

text \<open>
  \<^verbatim>\<open>Alert\<close>. The fields \<^verbatim>\<open>message\<close> and \<^verbatim>\<open>metadata\<close> are formatted text handed to
  the channels; no operation of the lifecycle reads them and they are left out.
\<close>

record Alert =
  alert_id :: string
  title :: string
  severity :: AlertSeverity
  status :: AlertStatus
  component :: string
  timestamp :: rat
  resolved_timestamp :: "rat option"
  suppression_duration :: "rat option"

text \<open>
  The snapshot dictionary handed to the rules, with the keys the rules read:
  \<^verbatim>\<open>current_metrics\<close> (the \<^verbatim>\<open>__dict__\<close> of the latest \<^verbatim>\<open>ResourceMetrics\<close>, or
  \<^verbatim>\<open>None\<close>) and the three mining flags that \<^verbatim>\<open>.get(key, False)\<close> defaults.
  \<^verbatim>\<open>ResourceMetrics\<close> is kept with the scalar readings that the rules and the scaling
  policies compare or log.
\<close>

record ResourceMetrics =
  rm_timestamp :: rat
  cpu_percent :: rat
  memory_percent :: rat
  memory_used_mb :: rat
  disk_percent :: rat
  temperature :: rat

record Metrics =
  current_metrics :: "ResourceMetrics option"
  mining_stopped :: bool
  wallet_disconnected :: bool
  pool_connection_lost :: bool

text \<open>
  \<^verbatim>\<open>AlertRule\<close> and its subclasses: the class is the field \<open>rule_kind\<close>, the
  subclass attribute \<^verbatim>\<open>threshold\<close> is unused by \<open>BaseRule\<close> and \<open>MiningRule\<close>.
\<close>

datatype RuleKind = BaseRule | CPURule | MemoryRule | DiskRule | TemperatureRule | MiningRule

record AlertRule =
  rule_kind :: RuleKind
  name :: string
  rule_severity :: AlertSeverity
  cooldown :: rat
  last_triggered :: rat
  trigger_count :: int
  suppressed_until :: rat
  threshold :: rat

definition evaluate_condition :: "AlertRule \<Rightarrow> Metrics \<Rightarrow> py_error + bool" where
  "evaluate_condition rule metrics =
     (case rule_kind rule of
        BaseRule \<Rightarrow> Inl NotImplementedError
      | CPURule \<Rightarrow>
          (case current_metrics metrics of
             None \<Rightarrow> Inr False
           | Some cm \<Rightarrow> Inr (cpu_percent cm > threshold rule))
      | MemoryRule \<Rightarrow>
          (case current_metrics metrics of
             None \<Rightarrow> Inr False
           | Some cm \<Rightarrow> Inr (memory_percent cm > threshold rule))
      | DiskRule \<Rightarrow>
          (case current_metrics metrics of
             None \<Rightarrow> Inr False
           | Some cm \<Rightarrow> Inr (disk_percent cm > threshold rule))
      | TemperatureRule \<Rightarrow>
          (case current_metrics metrics of
             None \<Rightarrow> Inr False
           | Some cm \<Rightarrow> Inr (temperature cm > 0 \<and> temperature cm > threshold rule))
      | MiningRule \<Rightarrow>
          Inr (mining_stopped metrics \<or> wallet_disconnected metrics \<or>
               pool_connection_lost metrics))"

definition should_trigger :: "rat \<Rightarrow> AlertRule \<Rightarrow> Metrics \<Rightarrow> py_error + bool" where
  "should_trigger now rule metrics =
     (if now - last_triggered rule < cooldown rule then Inr False
      else if now < suppressed_until rule then Inr False
      else evaluate_condition rule metrics)"

text \<open>\<^verbatim>\<open>int(x)\<close> on a float truncates towards zero; \<^verbatim>\<open>str\<close> of an integer is decimal.\<close>

definition py_int :: "rat \<Rightarrow> int" where
  "py_int r = (if r \<ge> 0 then \<lfloor>r\<rfloor> else \<lceil>r\<rceil>)"

fun str_nat :: "nat \<Rightarrow> string" where
  "str_nat n = (if n < 10 then [''0123456789'' ! n]
                else str_nat (n div 10) @ [''0123456789'' ! (n mod 10)])"

definition str_int :: "int \<Rightarrow> string" where
  "str_int i = (if i < 0 then CHR ''-'' # str_nat (nat (- i)) else str_nat (nat i))"

definition get_component :: "RuleKind \<Rightarrow> string" where
  "get_component k =
     (case k of BaseRule \<Rightarrow> ''system'' | CPURule \<Rightarrow> ''cpu'' | MemoryRule \<Rightarrow> ''memory''
      | DiskRule \<Rightarrow> ''disk'' | TemperatureRule \<Rightarrow> ''temperature'' | MiningRule \<Rightarrow> ''mining'')"

text \<open>\<^verbatim>\<open>AlertRule.trigger\<close>: stamps the rule and returns it with the new \<^verbatim>\<open>Alert\<close>.\<close>

definition trigger :: "rat \<Rightarrow> AlertRule \<Rightarrow> AlertRule \<times> Alert" where
  "trigger now rule =
     (let rule' = rule\<lparr>last_triggered := now, trigger_count := trigger_count rule + 1\<rparr>
      in (rule',
          \<lparr>alert_id = name rule' @ ''_'' @ str_int (py_int (last_triggered rule')),
           title = name rule',
           severity = rule_severity rule',
           status = ACTIVE,
           component = get_component (rule_kind rule'),
           timestamp = last_triggered rule',
           resolved_timestamp = None,
           suppression_duration = None\<rparr>))"

definition suppress :: "rat \<Rightarrow> rat \<Rightarrow> AlertRule \<Rightarrow> AlertRule" where
  "suppress now duration rule = rule\<lparr>suppressed_until := now + duration\<rparr>"


text \<open>
  \<^verbatim>\<open>AlertChannel\<close>: the transport behind \<^verbatim>\<open>_send_alert\<close> is external. What the
  system does is call it, once per enabled channel; its outcome (delivered, refused,
  raised) is swallowed by \<^verbatim>\<open>send_alert\<close> and \<^verbatim>\<open>_send_notifications\<close>. The calls are
  logged in \<open>sent\<close>, with the alert as it was when handed over.
\<close>

record AlertChannel =
  ch_name :: string
  enabled :: bool

text \<open>
  \<^verbatim>\<open>AlertingSystem\<close>. An \<^verbatim>\<open>Alert\<close> object is shared by \<^verbatim>\<open>active_alerts\<close> and
  \<^verbatim>\<open>alert_history\<close> and mutated in place on resolution, so the objects live in
  \<open>alert_heap\<close> and both containers hold addresses (indices into the heap).
  \<^verbatim>\<open>active_alerts\<close> is a dictionary in insertion order: an association list.
\<close>

record AlertingSystem =
  alert_rules :: "AlertRule list"
  alert_channels :: "AlertChannel list"
  alert_heap :: "Alert list"
  active_alerts :: "(string \<times> nat) list"
  alert_history :: "nat list"
  total_alerts :: int
  alerts_by_severity :: "AlertSeverity \<Rightarrow> int"
  alerts_by_component :: "string \<rightharpoonup> int"
  sent :: "(string \<times> Alert) list"

definition send_notifications :: "Alert \<Rightarrow> AlertingSystem \<Rightarrow> AlertingSystem" where
  "send_notifications alert sys =
     sys\<lparr>sent := sent sys @ map (\<lambda>c. (ch_name c, alert)) (filter enabled (alert_channels sys))\<rparr>"

text \<open>\<^verbatim>\<open>_handle_alert\<close>; \<^verbatim>\<open>max_history\<close> is the constant 1000 of \<^verbatim>\<open>__init__\<close>.\<close>

definition handle_alert :: "Alert \<Rightarrow> AlertingSystem \<Rightarrow> AlertingSystem" where
  "handle_alert alert sys =
     (let addr = length (alert_heap sys);
          hist = alert_history sys @ [addr]
      in send_notifications alert
           (sys\<lparr>alert_heap := alert_heap sys @ [alert],
                active_alerts := AList.update (alert_id alert) addr (active_alerts sys),
                alert_history := (if length hist > 1000 then tl hist else hist),
                total_alerts := total_alerts sys + 1,
                alerts_by_severity :=
                  (alerts_by_severity sys)
                    (severity alert := alerts_by_severity sys (severity alert) + 1),
                alerts_by_component :=
                  (alerts_by_component sys)
                    (component alert \<mapsto>
                       (case alerts_by_component sys (component alert) of
                          None \<Rightarrow> 0 | Some n \<Rightarrow> n) + 1)\<rparr>))"

text \<open>The first rule whose name is the alert's title (the inner \<^verbatim>\<open>for ... break\<close>).\<close>

definition find_rule :: "string \<Rightarrow> AlertRule list \<Rightarrow> AlertRule option" where
  "find_rule t rules = find (\<lambda>r. name r = t) rules"

text \<open>
  The loop of \<^verbatim>\<open>_check_resolved_alerts\<close> over the items of \<^verbatim>\<open>active_alerts\<close>,
  with the list \<^verbatim>\<open>resolved_alerts\<close> as accumulator. An exception of
  \<^verbatim>\<open>should_trigger\<close> leaves the loop (and the method) with the state reached so far.
\<close>

fun resolve_loop ::
  "rat \<Rightarrow> Metrics \<Rightarrow> (string \<times> nat) list \<Rightarrow> string list \<Rightarrow> AlertingSystem
     \<Rightarrow> py_error option \<times> string list \<times> AlertingSystem" where
  "resolve_loop now metrics [] resolved_alerts sys = (None, resolved_alerts, sys)"
| "resolve_loop now metrics ((aid, addr) # rest) resolved_alerts sys =
     (let alert = alert_heap sys ! addr in
      case find_rule (title alert) (alert_rules sys) of
        None \<Rightarrow> resolve_loop now metrics rest resolved_alerts sys
      | Some rule \<Rightarrow>
          (case should_trigger now rule metrics of
             Inl e \<Rightarrow> (Some e, resolved_alerts, sys)
           | Inr True \<Rightarrow> resolve_loop now metrics rest resolved_alerts sys
           | Inr False \<Rightarrow>
               (let alert' = alert\<lparr>status := RESOLVED, resolved_timestamp := Some now\<rparr>
                in resolve_loop now metrics rest (resolved_alerts @ [aid])
                     (send_notifications alert'
                        (sys\<lparr>alert_heap := (alert_heap sys)[addr := alert']\<rparr>)))))"

definition check_resolved_alerts ::
  "rat \<Rightarrow> Metrics \<Rightarrow> AlertingSystem \<Rightarrow> py_error option \<times> AlertingSystem" where
  "check_resolved_alerts now metrics sys =
     (case resolve_loop now metrics (active_alerts sys) [] sys of
        (Some e, resolved_alerts, sys') \<Rightarrow> (Some e, sys')
      | (None, resolved_alerts, sys') \<Rightarrow>
          (None, sys'\<lparr>active_alerts := fold AList.delete resolved_alerts (active_alerts sys')\<rparr>))"

text \<open>
  One pass of \<^verbatim>\<open>_monitoring_loop\<close>: every rule in turn (an exception of a rule is
  logged and the rule skipped), then the reconciliation (its exception is logged by the
  outer handler).
\<close>

definition rule_step :: "rat \<Rightarrow> Metrics \<Rightarrow> nat \<Rightarrow> AlertingSystem \<Rightarrow> AlertingSystem" where
  "rule_step now metrics i sys =
     (let rule = alert_rules sys ! i in
      case should_trigger now rule metrics of
        Inr True \<Rightarrow>
          (let (rule', alert) = trigger now rule
           in handle_alert alert (sys\<lparr>alert_rules := (alert_rules sys)[i := rule']\<rparr>))
      | _ \<Rightarrow> sys)"



text \<open>A system with the given rules and channels and nothing recorded yet.\<close>

definition AlertingSystem_init :: "AlertRule list \<Rightarrow> AlertChannel list \<Rightarrow> AlertingSystem" where
  "AlertingSystem_init rules channels =
     \<lparr>alert_rules = rules, alert_channels = channels, alert_heap = [],
      active_alerts = [], alert_history = [], total_alerts = 0,
      alerts_by_severity = (\<lambda>_. 0), alerts_by_component = Map.empty, sent = []\<rparr>"

text \<open>\<^verbatim>\<open>CPUAlertRule(threshold)\<close> as constructed, and the same rule with another cooldown.\<close>

definition CPUAlertRule :: "rat \<Rightarrow> AlertRule" where
  "CPUAlertRule th =
     \<lparr>rule_kind = CPURule, name = ''High CPU Usage'', rule_severity = WARNING,
      cooldown = 300, last_triggered = 0, trigger_count = 0, suppressed_until = 0,
      threshold = th\<rparr>"

definition cpu_metrics :: "rat \<Rightarrow> Metrics" where
  "cpu_metrics c =
     \<lparr>current_metrics =
        Some \<lparr>rm_timestamp = 0, cpu_percent = c, memory_percent = 0, memory_used_mb = 0,
              disk_percent = 0, temperature = 0\<rparr>,
      mining_stopped = False, wallet_disconnected = False, pool_connection_lost = False\<rparr>"



definition default_system :: AlertingSystem where
  "default_system =
     AlertingSystem_init [CPUAlertRule 85] [\<lparr>ch_name = ''webhook'', enabled = True\<rparr>]"

text \<open>The state after the rule loop of a pass at time 1000 with the CPU at 96 per cent.\<close>

definition fired_system :: AlertingSystem where
  "fired_system =
     fold (rule_step 1000 (cpu_metrics 96)) [0..<length (alert_rules default_system)] default_system"

text \<open>Every address held by the active set points into the heap.\<close>

definition heap_ok :: "AlertingSystem \<Rightarrow> bool" where
  "heap_ok sys \<longleftrightarrow> (\<forall>addr \<in> set (map snd (active_alerts sys)). addr < length (alert_heap sys))"

section \<open>Recovery manager (utils/error\_recovery.py)\<close>

datatype ErrorSeverity = LOW | MEDIUM | HIGH | CRITICAL

text \<open>\<^verbatim>\<open>ErrorEvent\<close>, without the captured exception object and traceback text.\<close>

record ErrorEvent =
  ev_timestamp :: rat
  ev_severity :: ErrorSeverity
  ev_component :: string
  ev_message :: string
  recovery_attempts :: int
  resolved :: bool

text \<open>
  \<^verbatim>\<open>RecoveryAction\<close>. The remediation \<^verbatim>\<open>_recover\<close> is subclass code acting on the
  outside world; what it reports is a \<open>recover_outcome\<close>. The field \<open>recover_calls\<close>
  is not in the source: it counts the entries into \<^verbatim>\<open>_recover\<close>, so that whether the
  remediation ran is a fact of the state.
\<close>

datatype recover_outcome = Recovered | NotRecovered | RecoverRaises py_error

record RecoveryAction =
  ra_name :: string
  max_attempts :: int
  ra_cooldown :: rat
  last_attempt :: rat
  success_count :: int
  failure_count :: int
  recover_calls :: nat

type_synonym recover_fn = "RecoveryAction \<Rightarrow> ErrorEvent \<Rightarrow> recover_outcome"

definition RecoveryAction_init :: "string \<Rightarrow> int \<Rightarrow> rat \<Rightarrow> RecoveryAction" where
  "RecoveryAction_init n m c =
     \<lparr>ra_name = n, max_attempts = m, ra_cooldown = c, last_attempt = 0,
      success_count = 0, failure_count = 0, recover_calls = 0\<rparr>"

definition can_attempt :: "rat \<Rightarrow> RecoveryAction \<Rightarrow> bool" where
  "can_attempt now a \<longleftrightarrow>
     now - last_attempt a > ra_cooldown a \<and> failure_count a < max_attempts a"

definition execute ::
  "rat \<Rightarrow> recover_fn \<Rightarrow> RecoveryAction \<Rightarrow> ErrorEvent \<Rightarrow> RecoveryAction \<times> (py_error + bool)" where
  "execute now recover a error =
     (if \<not> can_attempt now a then (a, Inr False)
      else
        (let a1 = a\<lparr>last_attempt := now, recover_calls := recover_calls a + 1\<rparr>
         in case recover a1 error of
              Recovered \<Rightarrow> (a1\<lparr>success_count := success_count a1 + 1\<rparr>, Inr True)
            | NotRecovered \<Rightarrow> (a1\<lparr>failure_count := failure_count a1 + 1\<rparr>, Inr False)
            | RecoverRaises e \<Rightarrow> (a1\<lparr>failure_count := failure_count a1 + 1\<rparr>, Inl e)))"

text \<open>
  \<^verbatim>\<open>ErrorRecoveryManager\<close>. One action object may be registered for several
  components, so the objects live in \<open>action_store\<close> and the registrations hold
  addresses (indices into the store).
\<close>

record ErrorRecoveryManager =
  error_history :: "ErrorEvent list"
  error_patterns :: "string \<rightharpoonup> int"
  action_store :: "RecoveryAction list"
  recovery_actions :: "nat list"
  component_recoveries :: "string \<rightharpoonup> nat list"
  total_errors :: int
  resolved_errors :: int
  critical_errors :: int

definition ErrorRecoveryManager_init :: ErrorRecoveryManager where
  "ErrorRecoveryManager_init =
     \<lparr>error_history = [], error_patterns = Map.empty, action_store = [],
      recovery_actions = [], component_recoveries = Map.empty,
      total_errors = 0, resolved_errors = 0, critical_errors = 0\<rparr>"

text \<open>Constructing an action object, and \<^verbatim>\<open>register_recovery_action\<close> on its address.\<close>

definition new_action :: "RecoveryAction \<Rightarrow> ErrorRecoveryManager \<Rightarrow> ErrorRecoveryManager" where
  "new_action a m = m\<lparr>action_store := action_store m @ [a]\<rparr>"

definition register_recovery_action ::
  "nat \<Rightarrow> string \<Rightarrow> ErrorRecoveryManager \<Rightarrow> ErrorRecoveryManager" where
  "register_recovery_action addr cmp_name m =
     m\<lparr>recovery_actions := recovery_actions m @ [addr],
       component_recoveries :=
         (component_recoveries m)
           (cmp_name \<mapsto> (case component_recoveries m cmp_name of None \<Rightarrow> [] | Some l \<Rightarrow> l) @ [addr])\<rparr>"

definition should_attempt_recovery :: "rat \<Rightarrow> ErrorRecoveryManager \<Rightarrow> ErrorEvent \<Rightarrow> bool" where
  "should_attempt_recovery now m error =
     (if ev_severity error = CRITICAL then False
      else
        (let recent_errors = filter (\<lambda>e. now - ev_timestamp e < 300) (error_history m)
         in if length recent_errors > 10 then False else True))"

text \<open>
  One \<^verbatim>\<open>for action in ...\<close> loop of \<^verbatim>\<open>_attempt_recovery\<close>; the flag tells whether
  the loop left the method through \<^verbatim>\<open>return\<close>. The error event is the object at
  index \<open>ei\<close> of the history. An exception of \<^verbatim>\<open>execute\<close> is logged and the loop goes on.
\<close>

fun actions_loop ::
  "rat \<Rightarrow> recover_fn \<Rightarrow> nat \<Rightarrow> nat list \<Rightarrow> ErrorRecoveryManager \<Rightarrow> bool \<times> ErrorRecoveryManager" where
  "actions_loop now recover ei [] m = (False, m)"
| "actions_loop now recover ei (a # rest) m =
     (let action = action_store m ! a in
      if can_attempt now action then
        (case execute now recover action (error_history m ! ei) of
           (action', Inr True) \<Rightarrow>
             (True,
              m\<lparr>action_store := (action_store m)[a := action'],
                error_history :=
                  (error_history m)
                    [ei := (error_history m ! ei)
                             \<lparr>resolved := True,
                              recovery_attempts := recovery_attempts (error_history m ! ei) + 1\<rparr>],
                resolved_errors := resolved_errors m + 1\<rparr>)
         | (action', _) \<Rightarrow>
             actions_loop now recover ei rest (m\<lparr>action_store := (action_store m)[a := action']\<rparr>))
      else actions_loop now recover ei rest m)"

definition attempt_recovery ::
  "rat \<Rightarrow> recover_fn \<Rightarrow> nat \<Rightarrow> ErrorRecoveryManager \<Rightarrow> ErrorRecoveryManager" where
  "attempt_recovery now recover ei m =
     (let error = error_history m ! ei;
          component_actions =
            (case component_recoveries m (ev_component error) of None \<Rightarrow> [] | Some l \<Rightarrow> l);
          general_actions =
            (case component_recoveries m ''general'' of None \<Rightarrow> [] | Some l \<Rightarrow> l)
      in case actions_loop now recover ei component_actions m of
           (True, m') \<Rightarrow> m'
         | (False, m') \<Rightarrow> snd (actions_loop now recover ei general_actions m'))"

text \<open>
  \<^verbatim>\<open>handle_error(component, error, severity)\<close>, the exception given by its type name
  and message, up to the closing call of \<^verbatim>\<open>_check_system_health\<close>. That call probes
  the machine through \<^verbatim>\<open>psutil\<close> and reports what it finds as further, separate
  errors of component \<^verbatim>\<open>"system"\<close> through this same entry point; it does nothing
  more to the error handled here. On the manager, a call of the source is thus the call
  modelled here followed by the calls for the errors the probe reports.
\<close>

definition record_error ::
  "rat \<Rightarrow> string \<Rightarrow> string \<times> string \<Rightarrow> ErrorSeverity \<Rightarrow> ErrorRecoveryManager \<Rightarrow> ErrorRecoveryManager" where
  "record_error now cmp_name error sev m =
     (let error_event =
            \<lparr>ev_timestamp = now, ev_severity = sev, ev_component = cmp_name,
             ev_message = snd error, recovery_attempts = 0, resolved = False\<rparr>;
          error_type = fst error;
          hist = error_history m @ [error_event]
      in m\<lparr>total_errors := total_errors m + 1,
           critical_errors := (if sev = CRITICAL then critical_errors m + 1 else critical_errors m),
           error_patterns :=
             (error_patterns m)
               (error_type \<mapsto> (case error_patterns m error_type of None \<Rightarrow> 0 | Some n \<Rightarrow> n) + 1),
           error_history := (if length hist > 1000 then tl hist else hist)\<rparr>)"

definition handle_error ::
  "rat \<Rightarrow> recover_fn \<Rightarrow> string \<Rightarrow> string \<times> string \<Rightarrow> ErrorSeverity
     \<Rightarrow> ErrorRecoveryManager \<Rightarrow> ErrorRecoveryManager" where
  "handle_error now recover cmp_name error sev m =
     (let m1 = record_error now cmp_name error sev m;
          ei = length (error_history m1) - 1
      in if should_attempt_recovery now m1 (error_history m1 ! ei)
         then attempt_recovery now recover ei m1
         else m1)"


text \<open>
  The recovery procedure in the words of the specification: \<^verbatim>\<open>execute\<close> is called on
  each action of the list in turn, and the first success ends the procedure and marks
  the error resolved. It is compared with \<open>attempt_recovery\<close> below.
\<close>

fun try_actions ::
  "rat \<Rightarrow> recover_fn \<Rightarrow> nat \<Rightarrow> nat list \<Rightarrow> ErrorRecoveryManager \<Rightarrow> ErrorRecoveryManager" where
  "try_actions now recover ei [] m = m"
| "try_actions now recover ei (a # rest) m =
     (case execute now recover (action_store m ! a) (error_history m ! ei) of
        (action', Inr True) \<Rightarrow>
          m\<lparr>action_store := (action_store m)[a := action'],
            error_history :=
              (error_history m)
                [ei := (error_history m ! ei)
                         \<lparr>resolved := True,
                          recovery_attempts := recovery_attempts (error_history m ! ei) + 1\<rparr>],
            resolved_errors := resolved_errors m + 1\<rparr>
      | (action', _) \<Rightarrow>
          try_actions now recover ei rest (m\<lparr>action_store := (action_store m)[a := action']\<rparr>))"

text \<open>\<^verbatim>\<open>self.component_recoveries.get(name, [])\<close>.\<close>

definition registered :: "ErrorRecoveryManager \<Rightarrow> string \<Rightarrow> nat list" where
  "registered m cmp_name = (case component_recoveries m cmp_name of None \<Rightarrow> [] | Some l \<Rightarrow> l)"

text \<open>A sequence of reported errors, each with its clock reading and what the remediations do.\<close>

type_synonym error_report = "rat \<times> recover_fn \<times> string \<times> (string \<times> string) \<times> ErrorSeverity"

definition handle_errors :: "error_report list \<Rightarrow> ErrorRecoveryManager \<Rightarrow> ErrorRecoveryManager" where
  "handle_errors reports m =
     fold (\<lambda>(now, recover, cmp_name, error, sev). handle_error now recover cmp_name error sev)
       reports m"

text \<open>Concrete managers for the runs below.\<close>

definition always :: "recover_outcome \<Rightarrow> recover_fn" where
  "always outcome = (\<lambda>action error. outcome)"

definition ready_manager :: ErrorRecoveryManager where
  "ready_manager =
     register_recovery_action 0 ''mining''
       (new_action (RecoveryAction_init ''restart_miner'' 3 30) ErrorRecoveryManager_init)"

definition busy_manager :: ErrorRecoveryManager where
  "busy_manager =
     fold (\<lambda>t. handle_error t (always Recovered) ''wallet'' (''ConnectionError'', ''lost'') MEDIUM)
       [1000, 1001, 1002, 1003, 1004, 1005, 1006, 1007, 1008, 1009] ready_manager"

definition exhausted_manager :: ErrorRecoveryManager where
  "exhausted_manager =
     handle_errors
       [(1000, always NotRecovered, ''mining'', (''RuntimeError'', ''stalled''), MEDIUM),
        (2000, always NotRecovered, ''mining'', (''RuntimeError'', ''stalled''), MEDIUM),
        (3000, always NotRecovered, ''mining'', (''RuntimeError'', ''stalled''), MEDIUM)]
       ready_manager"

definition stalled :: ErrorEvent where
  "stalled = \<lparr>ev_timestamp = 4000, ev_severity = MEDIUM, ev_component = ''mining'',
               ev_message = ''stalled'', recovery_attempts = 0, resolved = False\<rparr>"

section \<open>Resource scaler (monitoring/resource\_monitor.py)\<close>

text \<open>
  The object behind \<^verbatim>\<open>miner_instance\<close>: absent (\<^verbatim>\<open>None\<close>), an object without a
  \<^verbatim>\<open>config\<close> attribute, or an object with one. A configuration object has the
  attributes \<^verbatim>\<open>cpu_threads\<close> and \<^verbatim>\<open>intensity\<close> (\<open>None\<close> where the attribute is
  missing, so that \<^verbatim>\<open>getattr\<close> yields its default) and accepts \<^verbatim>\<open>setattr\<close>; a plain
  dictionary has neither attribute and \<^verbatim>\<open>setattr\<close> on it raises, which the
  \<^verbatim>\<open>except\<close> clause of the action turns into failure.
\<close>

datatype config_obj = AttrConfig (cpu_threads: "int option") (intensity: "rat option") | DictConfig

datatype miner_instance = NoMiner | MinerWithoutConfig | MinerWithConfig config_obj













section \<open>Properties of the profit switcher\<close>

lemma demo_simps:
  "switch_strategy (demo_switcher st c n) = st"
  "switch_threshold (demo_switcher st c n) = 1 / 10"
  "min_switch_interval (demo_switcher st c n) = 300"
  "current_algorithm (demo_switcher st c n) = Some ''sha256''"
  "last_switch_time (demo_switcher st c n) = 1000"
  "profitability_data (demo_switcher st c n) ''sha256'' = Some (pdata ''sha256'' c)"
  "profitability_data (demo_switcher st c n) ''ethash'' = Some (pdata ''ethash'' n)"
  "switch_history (demo_switcher st c n) = [(1000, ''ethash'', ''sha256'')]"
  by (simp_all add: demo_switcher_def record_switch_def ProfitSwitcher_init_def Let_def)

lemma pdata_simps: "profit_per_hour (pdata a p) = p" "algorithm (pdata a p) = a"
  by (simp_all add: pdata_def)

lemma hist_demo: "get_algorithm_history 1300 (demo_switcher st c n) ''sha256'' 30 = [c]"
  by (simp add: get_algorithm_history_def demo_simps pdata_simps)



text \<open>
  C8. When the history retrieved for the current algorithm or for the candidate has
  fewer than three samples, the predictive strategy decides as the threshold strategy
  does on the same state and inputs: same boolean, or the same exception.
\<close>

theorem predictive_fallback_eq_threshold:
  assumes "current_algorithm s = Some cur"
    and "profitability_data s cur = Some cd" and "profitability_data s new = Some nd"
    and "length (get_algorithm_history now s (algorithm cd) 30) < 3 \<or>
         length (get_algorithm_history now s (algorithm nd) 30) < 3"
  shows "should_switch now (s\<lparr>switch_strategy := PREDICTIVE\<rparr>) new =
         should_switch now (s\<lparr>switch_strategy := THRESHOLD\<rparr>) new"
proof -
  have h: "get_algorithm_history now (s\<lparr>switch_strategy := PREDICTIVE\<rparr>) a m =
           get_algorithm_history now s a m" for a m
    by (simp add: get_algorithm_history_def)
  show ?thesis
    using assms
    by (simp add: should_switch_def predictive_switch_decision_def h split: sum.splits)
qed

theorem predictive_fallback_witness:
  "length (get_algorithm_history 1300 (demo_switcher THRESHOLD 100 115) ''sha256'' 30) < 3 \<and>
   should_switch 1300 ((demo_switcher THRESHOLD 100 115)\<lparr>switch_strategy := PREDICTIVE\<rparr>) ''ethash''
     = Inr True \<and>
   should_switch 1300 ((demo_switcher THRESHOLD 100 115)\<lparr>switch_strategy := THRESHOLD\<rparr>) ''ethash''
     = Inr True"
proof -
  have h: "length (get_algorithm_history 1300 (demo_switcher THRESHOLD 100 115)
             (algorithm (pdata ''sha256'' 100)) 30) < 3"
    by (simp add: hist_demo pdata_simps)
  have t: "should_switch 1300 ((demo_switcher THRESHOLD 100 115)\<lparr>switch_strategy := THRESHOLD\<rparr>)
             ''ethash'' = Inr True"
    by (simp add: should_switch_def demo_simps pdata_simps improvement_def py_truediv_def)
  show ?thesis
    using predictive_fallback_eq_threshold [of "demo_switcher THRESHOLD 100 115" "''sha256''"
            "pdata ''sha256'' 100" "''ethash''" "pdata ''ethash'' 115" 1300] h t
    by (simp add: demo_simps pdata_simps)
qed

text \<open>
  C10. Where \<^verbatim>\<open>_should_switch\<close> reaches the improvement quotient (threshold strategy,
  gradual strategy, or predictive strategy with too short a history), it returns a
  boolean exactly when the current profit is nonzero and raises
  \<^verbatim>\<open>ZeroDivisionError\<close> exactly when the current profit is zero.
\<close>

theorem division_by_zero:
  assumes "current_algorithm s = Some cur" and "cur \<noteq> []" and "cur \<noteq> new"
    and "now - last_switch_time s \<ge> min_switch_interval s"
    and "profitability_data s cur = Some cd" and "profitability_data s new = Some nd"
    and "switch_strategy s = THRESHOLD \<or> switch_strategy s = GRADUAL \<or>
         (switch_strategy s = PREDICTIVE \<and>
            (length (get_algorithm_history now s (algorithm cd) 30) < 3 \<or>
             length (get_algorithm_history now s (algorithm nd) 30) < 3))"
  shows "((\<exists>b. should_switch now s new = Inr b) \<longleftrightarrow> profit_per_hour cd \<noteq> 0) \<and>
         (should_switch now s new = Inl ZeroDivisionError \<longleftrightarrow> profit_per_hour cd = 0)"
  using assms
  by (auto simp add: should_switch_def predictive_switch_decision_def improvement_def py_truediv_def
        split: if_splits)

theorem division_by_zero_witness:
  "should_switch 1300 (demo_switcher THRESHOLD 0 115) ''ethash'' = Inl ZeroDivisionError \<and>
   should_switch 1300 (demo_switcher GRADUAL 0 115) ''ethash'' = Inl ZeroDivisionError \<and>
   should_switch 1300 (demo_switcher PREDICTIVE 0 115) ''ethash'' = Inl ZeroDivisionError \<and>
   (\<exists>b. should_switch 1300 (demo_switcher THRESHOLD 100 115) ''ethash'' = Inr b)"
  using division_by_zero [of "demo_switcher THRESHOLD 0 115" "''sha256''" "''ethash''" 1300
          "pdata ''sha256'' 0" "pdata ''ethash'' 115"]
        division_by_zero [of "demo_switcher GRADUAL 0 115" "''sha256''" "''ethash''" 1300
          "pdata ''sha256'' 0" "pdata ''ethash'' 115"]
        division_by_zero [of "demo_switcher PREDICTIVE 0 115" "''sha256''" "''ethash''" 1300
          "pdata ''sha256'' 0" "pdata ''ethash'' 115"]
        division_by_zero [of "demo_switcher THRESHOLD 100 115" "''sha256''" "''ethash''" 1300
          "pdata ''sha256'' 100" "pdata ''ethash'' 115"]
  by (simp add: demo_simps pdata_simps hist_demo)


lemma should_switch_interval:
  assumes "should_switch now s new = Inr True"
    and "current_algorithm s = Some cur" and "cur \<noteq> []"
  shows "now - last_switch_time s \<ge> min_switch_interval s"
  using assms by (simp add: should_switch_def split: if_splits)

lemma spaced_snoc:
  "spaced ivl (h @ [e]) \<longleftrightarrow> spaced ivl h \<and> (\<forall>a \<in> set h. fst e - fst a \<ge> ivl)"
  by (auto simp add: spaced_def sorted_wrt_append)

lemma spaced_drop: "spaced ivl h \<Longrightarrow> spaced ivl (drop n h)"
  by (simp add: spaced_def)

lemma record_switch_fields:
  "min_switch_interval (record_switch now f t s) = min_switch_interval s"
  "last_switch_time (record_switch now f t s) = now"
  "current_algorithm (record_switch now f t s) = Some t"
  "switch_history (record_switch now f t s) =
     (if length (switch_history s) + 1 > 100
      then drop (length (switch_history s) + 1 - 100) (switch_history s @ [(now, f, t)])
      else switch_history s @ [(now, f, t)])"
  by (simp_all add: record_switch_def Let_def)

lemma switch_inv_record:
  assumes inv: "switch_inv s" and nonneg: "0 \<le> min_switch_interval s"
    and ok: "should_switch now s t = Inr True" and ne: "t \<noteq> []"
  shows "switch_inv (record_switch now f t s)"
proof -
  let ?h = "switch_history s" and ?ivl = "min_switch_interval s"
  have old: "\<forall>a \<in> set ?h. now - fst a \<ge> ?ivl \<and> fst a \<le> now"
  proof
    fix a assume a: "a \<in> set ?h"
    then have "?h \<noteq> []" by auto
    with inv obtain c where c: "current_algorithm s = Some c" "c \<noteq> []"
      by (auto simp add: switch_inv_def)
    from should_switch_interval [OF ok c] have "now - last_switch_time s \<ge> ?ivl" .
    moreover from inv a have "fst a \<le> last_switch_time s" by (simp add: switch_inv_def)
    ultimately show "now - fst a \<ge> ?ivl \<and> fst a \<le> now" using nonneg by linarith
  qed
  have full: "spaced ?ivl (?h @ [(now, f, t)])"
    using inv old by (simp add: spaced_snoc switch_inv_def)
  have below: "\<forall>e \<in> set (?h @ [(now, f, t)]). fst e \<le> now"
    using old by auto
  have "\<forall>e \<in> set (drop n (?h @ [(now, f, t)])). fst e \<le> now" for n
    using below in_set_dropD by fast
  moreover have "spaced ?ivl (drop n (?h @ [(now, f, t)]))" for n
    using full by (rule spaced_drop)
  ultimately show ?thesis
    using full below ne by (simp add: switch_inv_def record_switch_fields del: drop_append)
qed

lemma approved_run_inv:
  "approved_run s \<Longrightarrow> 0 \<le> min_switch_interval s \<Longrightarrow> switch_inv s"
proof (induction rule: approved_run.induct)
  case (start strategy threshold interval)
  show ?case by (simp add: switch_inv_def ProfitSwitcher_init_def spaced_def)
next
  case (update s pd)
  then show ?case by (simp add: switch_inv_def)
next
  case (switch s now to_algorithm from_algorithm)
  then show ?case by (simp add: switch_inv_record record_switch_fields)
qed

text \<open>
  C3, as the code has it. \<^verbatim>\<open>record_switch\<close> appends without looking at the clock;
  the interval is checked by \<^verbatim>\<open>_should_switch\<close> alone. In a log whose every entry
  was recorded after \<^verbatim>\<open>_should_switch\<close> approved the switch at that clock reading,
  any two entries are at least \<^verbatim>\<open>min_switch_interval\<close> apart, whatever the strategy
  and the profitability data.
\<close>

theorem approved_switches_spaced:
  assumes "approved_run s" and "i < j" and "j < length (switch_history s)"
  shows "\<bar>fst (switch_history s ! i) - fst (switch_history s ! j)\<bar> \<ge> min_switch_interval s"
proof (cases "0 \<le> min_switch_interval s")
  case True
  with assms(1) have "spaced (min_switch_interval s) (switch_history s)"
    using approved_run_inv by (simp add: switch_inv_def)
  with assms(2,3)
  have "fst (switch_history s ! j) - fst (switch_history s ! i) \<ge> min_switch_interval s"
    by (simp add: spaced_def sorted_wrt_iff_nth_less)
  then show ?thesis by linarith
next
  case False
  then show ?thesis by linarith
qed


lemma approved_pair_run: "approved_run approved_pair"
  unfolding approved_pair_def
  apply (rule approved_run.switch)
    apply (rule approved_run.update)
    apply (rule approved_run.switch)
      apply (rule approved_run.start)
     apply (simp add: should_switch_def ProfitSwitcher_init_def)
    apply simp
   apply (simp add: should_switch_def record_switch_def ProfitSwitcher_init_def Let_def
                    improvement_def py_truediv_def pdata_def)
  apply simp
  done

theorem approved_switches_spaced_witness:
  "approved_run approved_pair \<and> (0::nat) < 1 \<and> 1 < length (switch_history approved_pair) \<and>
   switch_history approved_pair = [(1000, ''none'', ''ethash''), (1400, ''ethash'', ''sha256'')] \<and>
   \<bar>fst (switch_history approved_pair ! 0) - fst (switch_history approved_pair ! 1)\<bar>
     \<ge> min_switch_interval approved_pair"
proof -
  have h: "switch_history approved_pair = [(1000, ''none'', ''ethash''), (1400, ''ethash'', ''sha256'')]"
    by (simp add: approved_pair_def record_switch_def ProfitSwitcher_init_def Let_def)
  have l: "1 < length (switch_history approved_pair)" by (simp add: h)
  from approved_switches_spaced [OF approved_pair_run _ l, of 0] h l approved_pair_run
  show ?thesis by simp
qed

text \<open>
  Two calls of \<^verbatim>\<open>record_switch\<close> one second apart, with the default interval of 300
  seconds: both are logged.
\<close>

theorem record_switch_unchecked_counterexample:
  "switch_history two_quick_switches =
     [(1000, ''sha256'', ''ethash''), (1001, ''ethash'', ''randomx'')] \<and>
   min_switch_interval two_quick_switches = 300 \<and>
   \<not> (\<bar>fst (switch_history two_quick_switches ! 0) - fst (switch_history two_quick_switches ! 1)\<bar>
        \<ge> min_switch_interval two_quick_switches)"
  by (simp add: two_quick_switches_def record_switch_def ProfitSwitcher_init_def Let_def)


section \<open>Properties of the alerting system\<close>

text \<open>
  C4. \<^verbatim>\<open>should_trigger\<close> returns false whenever the cooldown has not elapsed or the
  rule is suppressed; so after \<^verbatim>\<open>trigger\<close> at \<open>t1\<close>, a check at any \<open>t2\<close> with
  \<open>t2 - t1\<close> below the cooldown is refused, whatever the snapshot.
\<close>

theorem cooldown_gate:
  "(now - last_triggered r < cooldown r \<or> now < suppressed_until r
      \<longrightarrow> should_trigger now r m = Inr False) \<and>
   (t2 - t1 < cooldown r \<longrightarrow> should_trigger t2 (fst (trigger t1 r)) m = Inr False)"
  by (simp add: should_trigger_def trigger_def Let_def)

theorem cooldown_gate_witness:
  "(100::rat) - last_triggered (CPUAlertRule 85) < cooldown (CPUAlertRule 85) \<and>
   should_trigger 100 (CPUAlertRule 85) (cpu_metrics 96) = Inr False \<and>
   (1500::rat) < suppressed_until (suppress 1000 600 (CPUAlertRule 85)) \<and>
   should_trigger 1500 (suppress 1000 600 (CPUAlertRule 85)) (cpu_metrics 96) = Inr False \<and>
   should_trigger 1000 (CPUAlertRule 85) (cpu_metrics 96) = Inr True \<and>
   (1100::rat) - 1000 < cooldown (CPUAlertRule 85) \<and>
   should_trigger 1100 (fst (trigger 1000 (CPUAlertRule 85))) (cpu_metrics 96) = Inr False"
  using cooldown_gate [of 100 "CPUAlertRule 85" "cpu_metrics 96" 1100 1000]
        cooldown_gate [of 1500 "suppress 1000 600 (CPUAlertRule 85)" "cpu_metrics 96" 1100 1000]
  by (simp add: should_trigger_def CPUAlertRule_def cpu_metrics_def evaluate_condition_def
        suppress_def)



lemma handle_alert_fields:
  "alert_heap (handle_alert a sys) = alert_heap sys @ [a]"
  "active_alerts (handle_alert a sys) =
     AList.update (alert_id a) (length (alert_heap sys)) (active_alerts sys)"
  "alert_rules (handle_alert a sys) = alert_rules sys"
  by (simp_all add: handle_alert_def send_notifications_def Let_def)





lemma update_values: "set (map snd (AList.update k v l)) \<subseteq> insert v (set (map snd l))"
  by (induction l) auto

lemma heap_ok_handle_alert: "heap_ok sys \<Longrightarrow> heap_ok (handle_alert a sys)"
proof -
  assume ok: "heap_ok sys"
  have "addr < Suc (length (alert_heap sys))"
    if "addr \<in> set (map snd (AList.update (alert_id a) (length (alert_heap sys)) (active_alerts sys)))"
    for addr
  proof -
    from that update_values [of "alert_id a" "length (alert_heap sys)" "active_alerts sys"]
    have "addr = length (alert_heap sys) \<or> addr \<in> set (map snd (active_alerts sys))" by auto
    with ok show ?thesis by (auto simp add: heap_ok_def)
  qed
  then show ?thesis
    unfolding heap_ok_def handle_alert_fields by simp
qed




text \<open>
  C2 at a concrete pass. The default CPU rule (threshold 85, cooldown 300) fires at
  time 1000 on a CPU reading of 96. The reconciliation of the same pass finds the rule
  in its cooldown, so \<^verbatim>\<open>should_trigger\<close> is false and the alert is resolved and removed
  although the rule's condition is true on the snapshot.
\<close>

theorem resolved_while_condition_holds:
  "evaluate_condition (alert_rules fired_system ! 0) (cpu_metrics 96) = Inr True \<and>
   map fst (active_alerts fired_system) = [''High CPU Usage_1000''] \<and>
   map status (alert_heap fired_system) = [ACTIVE] \<and>
   active_alerts (snd (check_resolved_alerts 1000 (cpu_metrics 96) fired_system)) = [] \<and>
   map status (alert_heap (snd (check_resolved_alerts 1000 (cpu_metrics 96) fired_system)))
     = [RESOLVED] \<and>
   map (\<lambda>(c, a). (c, status a))
     (sent (snd (check_resolved_alerts 1000 (cpu_metrics 96) fired_system)))
     = [(''webhook'', ACTIVE), (''webhook'', RESOLVED)]"
  by code_simp



section \<open>Properties of the recovery manager\<close>

lemma execute_blocked: "\<not> can_attempt now a \<Longrightarrow> execute now recover a ev = (a, Inr False)"
  by (simp add: execute_def)

lemma actions_loop_try:
  "actions_loop now recover ei (xs @ ys) m =
     (case actions_loop now recover ei xs m of
        (True, m') \<Rightarrow> (True, m')
      | (False, m') \<Rightarrow> actions_loop now recover ei ys m')"
  by (induction xs arbitrary: m) (auto simp add: Let_def split: prod.splits sum.splits bool.splits)

lemma actions_loop_is_try:
  "snd (actions_loop now recover ei xs m) = try_actions now recover ei xs m"
proof (induction xs arbitrary: m)
  case Nil
  show ?case by simp
next
  case (Cons a xs)
  show ?case
  proof (cases "can_attempt now (action_store m ! a)")
    case True
    then show ?thesis
      using Cons.IH by (auto simp add: Let_def split: prod.splits sum.splits bool.splits)
  next
    case False
    then have "execute now recover (action_store m ! a) (error_history m ! ei) =
                 (action_store m ! a, Inr False)"
      by (rule execute_blocked)
    with False show ?thesis
      using Cons.IH by (simp add: Let_def)
  qed
qed

lemma attempt_recovery_try:
  "attempt_recovery now recover ei m =
     try_actions now recover ei
       (registered m (ev_component (error_history m ! ei)) @ registered m ''general'') m"
proof -
  have "attempt_recovery now recover ei m =
        snd (actions_loop now recover ei
               (registered m (ev_component (error_history m ! ei)) @ registered m ''general'') m)"
    by (simp add: attempt_recovery_def registered_def actions_loop_try Let_def
             split: prod.splits bool.splits)
  then show ?thesis by (simp add: actions_loop_is_try)
qed


lemma record_error_fields:
  "action_store (record_error now c e sev m) = action_store m"
  "component_recoveries (record_error now c e sev m) = component_recoveries m"
  by (simp_all add: record_error_def Let_def)

lemma record_error_last:
  "error_history (record_error now c e sev m) ! (length (error_history (record_error now c e sev m)) - 1)
     = \<lparr>ev_timestamp = now, ev_severity = sev, ev_component = c, ev_message = snd e,
        recovery_attempts = 0, resolved = False\<rparr>"
proof (cases "error_history m")
  case Nil
  then show ?thesis by (simp add: record_error_def Let_def)
next
  case (Cons x xs)
  then show ?thesis by (simp add: record_error_def Let_def nth_append)
qed

text \<open>
  C5, as the code has it. An error is only recorded, and no action is touched, when its
  severity is critical or when more than 10 events of the history, of any component and
  counting the one just recorded, are less than 300 seconds old. Otherwise the two
  loops of \<^verbatim>\<open>_attempt_recovery\<close> amount to calling \<^verbatim>\<open>execute\<close> on every action
  registered for the error's component and then on every action registered as general,
  stopping at the first success.
\<close>

theorem handle_error_recovery:
  "(sev = CRITICAL \<or>
    10 < length (filter (\<lambda>e. now - ev_timestamp e < 300)
                   (error_history (record_error now c e sev m)))
      \<longrightarrow> handle_error now recover c e sev m = record_error now c e sev m \<and>
          action_store (handle_error now recover c e sev m) = action_store m) \<and>
   (\<not> (sev = CRITICAL \<or>
        10 < length (filter (\<lambda>e. now - ev_timestamp e < 300)
                       (error_history (record_error now c e sev m))))
      \<longrightarrow> handle_error now recover c e sev m =
            try_actions now recover (length (error_history (record_error now c e sev m)) - 1)
              (registered m c @ registered m ''general'') (record_error now c e sev m))"
proof -
  define m1 where "m1 = record_error now c e sev m"
  define ei where "ei = length (error_history m1) - 1"
  have ev: "ev_severity (error_history m1 ! ei) = sev" "ev_component (error_history m1 ! ei) = c"
    unfolding m1_def ei_def by (simp_all only: record_error_last ErrorEvent.simps)
  have gate: "should_attempt_recovery now m1 (error_history m1 ! ei) \<longleftrightarrow>
              \<not> (sev = CRITICAL \<or>
                 10 < length (filter (\<lambda>e. now - ev_timestamp e < 300) (error_history m1)))"
    by (simp add: should_attempt_recovery_def ev Let_def)
  have reg: "registered m1 x = registered m x" for x
    by (simp add: registered_def m1_def record_error_fields)
  have he: "handle_error now recover c e sev m =
              (if should_attempt_recovery now m1 (error_history m1 ! ei)
               then attempt_recovery now recover ei m1 else m1)"
    by (simp add: handle_error_def m1_def ei_def Let_def)
  have st: "action_store m1 = action_store m"
    by (simp add: m1_def record_error_fields)
  show ?thesis
    unfolding m1_def [symmetric] ei_def [symmetric]
    by (simp add: he gate attempt_recovery_try ev reg st)
qed


text \<open>
  Ten errors of component wallet within ten seconds, then a medium error of component
  mining, the only one of that component: its eligible action is not run.
\<close>

theorem burst_counts_all_components_counterexample:
  "length (filter (\<lambda>e. ev_component e = ''mining'' \<and> 1010 - ev_timestamp e < 300)
     (error_history
        (handle_error 1010 (always Recovered) ''mining'' (''RuntimeError'', ''stalled'') MEDIUM
           busy_manager))) = 1 \<and>
   registered busy_manager ''mining'' = [0] \<and>
   can_attempt 1010 (action_store busy_manager ! 0) \<and>
   recover_calls (action_store
     (handle_error 1010 (always Recovered) ''mining'' (''RuntimeError'', ''stalled'') MEDIUM
        busy_manager) ! 0) = 0 \<and>
   \<not> resolved (last (error_history
     (handle_error 1010 (always Recovered) ''mining'' (''RuntimeError'', ''stalled'') MEDIUM
        busy_manager)))"
  by code_simp

theorem handle_error_recovery_witness:
  "action_store (handle_error 1000 (always Recovered) ''mining'' (''RuntimeError'', ''stalled'')
                   CRITICAL ready_manager) = action_store ready_manager \<and>
   handle_error 1000 (always Recovered) ''mining'' (''RuntimeError'', ''stalled'') MEDIUM ready_manager =
     try_actions 1000 (always Recovered) 0 [0]
       (record_error 1000 ''mining'' (''RuntimeError'', ''stalled'') MEDIUM ready_manager)"
proof -
  have h: "error_history (record_error 1000 ''mining'' (''RuntimeError'', ''stalled'') MEDIUM ready_manager)
             = [\<lparr>ev_timestamp = 1000, ev_severity = MEDIUM, ev_component = ''mining'',
                 ev_message = ''stalled'', recovery_attempts = 0, resolved = False\<rparr>]"
    by (simp add: record_error_def ready_manager_def register_recovery_action_def new_action_def
          ErrorRecoveryManager_init_def Let_def)
  have r: "registered ready_manager ''mining'' = [0]" "registered ready_manager ''general'' = []"
    by (simp_all add: registered_def ready_manager_def register_recovery_action_def new_action_def
          ErrorRecoveryManager_init_def)
  have c: "action_store (handle_error 1000 (always Recovered) ''mining'' (''RuntimeError'', ''stalled'')
                          CRITICAL ready_manager) = action_store ready_manager"
    using handle_error_recovery [of CRITICAL 1000 "''mining''" "(''RuntimeError'', ''stalled'')"
            ready_manager "always Recovered"]
    by (simp add: record_error_fields)
  have a: "handle_error 1000 (always Recovered) ''mining'' (''RuntimeError'', ''stalled'') MEDIUM
             ready_manager =
           try_actions 1000 (always Recovered) 0 [0]
             (record_error 1000 ''mining'' (''RuntimeError'', ''stalled'') MEDIUM ready_manager)"
    using handle_error_recovery [of MEDIUM 1000 "''mining''" "(''RuntimeError'', ''stalled'')"
            ready_manager "always Recovered"]
    by (simp add: h r del: try_actions.simps)
  from c a show ?thesis by (rule conjI)
qed

lemma can_attempt_exhausted:
  "max_attempts a \<le> failure_count a \<Longrightarrow> \<not> can_attempt now a"
  by (simp add: can_attempt_def)

lemma actions_loop_keeps_exhausted:
  assumes "addr < length (action_store m)"
    and "max_attempts (action_store m ! addr) \<le> failure_count (action_store m ! addr)"
  shows "action_store (snd (actions_loop now recover ei xs m)) ! addr = action_store m ! addr \<and>
         length (action_store (snd (actions_loop now recover ei xs m))) = length (action_store m)"
  using assms
proof (induction xs arbitrary: m)
  case Nil
  show ?case by simp
next
  case (Cons a xs)
  show ?case
  proof (cases "a = addr")
    case True
    with Cons.prems have "\<not> can_attempt now (action_store m ! a)"
      by (simp add: can_attempt_exhausted)
    then show ?thesis using Cons by simp
  next
    case False
    show ?thesis
    proof (cases "can_attempt now (action_store m ! a)")
      case blocked: False
      then show ?thesis using Cons by simp
    next
      case True
      obtain action' res where ex:
        "execute now recover (action_store m ! a) (error_history m ! ei) = (action', res)"
        by (cases "execute now recover (action_store m ! a) (error_history m ! ei)")
      let ?m' = "m\<lparr>action_store := (action_store m)[a := action']\<rparr>"
      have keep: "addr < length (action_store ?m')"
        "max_attempts (action_store ?m' ! addr) \<le> failure_count (action_store ?m' ! addr)"
        "action_store ?m' ! addr = action_store m ! addr"
        "length (action_store ?m') = length (action_store m)"
        using Cons.prems False by simp_all
      from Cons.IH [OF keep(1,2)] keep(3,4) True ex show ?thesis
        by (cases res) (auto simp add: Let_def split: bool.splits)
    qed
  qed
qed

lemma handle_error_keeps_exhausted:
  assumes "addr < length (action_store m)"
    and "max_attempts (action_store m ! addr) \<le> failure_count (action_store m ! addr)"
  shows "action_store (handle_error now recover c e sev m) ! addr = action_store m ! addr \<and>
         length (action_store (handle_error now recover c e sev m)) = length (action_store m)"
proof -
  define m1 where "m1 = record_error now c e sev m"
  have st: "action_store m1 = action_store m"
    by (simp add: m1_def record_error_fields)
  have p: "addr < length (action_store m1)"
    "max_attempts (action_store m1 ! addr) \<le> failure_count (action_store m1 ! addr)"
    using assms by (simp_all add: st)
  have loop: "action_store (snd (actions_loop now recover ei xs m')) ! addr = action_store m1 ! addr \<and>
              length (action_store (snd (actions_loop now recover ei xs m'))) = length (action_store m1)"
    if "action_store m' ! addr = action_store m1 ! addr"
       "length (action_store m') = length (action_store m1)" for ei xs m'
    using actions_loop_keeps_exhausted [of addr m' now recover ei xs] that p by simp
  have att: "action_store (attempt_recovery now recover ei m1) ! addr = action_store m1 ! addr \<and>
             length (action_store (attempt_recovery now recover ei m1)) = length (action_store m1)" for ei
  proof -
    let ?cs = "case component_recoveries m1 (ev_component (error_history m1 ! ei)) of
                 None \<Rightarrow> [] | Some l \<Rightarrow> l"
    let ?gs = "case component_recoveries m1 ''general'' of None \<Rightarrow> [] | Some l \<Rightarrow> l"
    obtain b m2 where first: "actions_loop now recover ei ?cs m1 = (b, m2)"
      by (cases "actions_loop now recover ei ?cs m1")
    from loop [of m1 ei ?cs] first
    have m2: "action_store m2 ! addr = action_store m1 ! addr"
      "length (action_store m2) = length (action_store m1)" by simp_all
    from loop [OF m2, of ei ?gs] m2 first show ?thesis
      by (cases b) (simp_all add: attempt_recovery_def Let_def)
  qed
  show ?thesis
    using att st by (simp add: handle_error_def m1_def [symmetric] Let_def)
qed

text \<open>
  C6. Once \<^verbatim>\<open>failure_count\<close> has reached \<^verbatim>\<open>max_attempts\<close>, \<^verbatim>\<open>execute\<close> returns
  false without entering the remediation, at any time and whatever the remediation would
  do; and through any sequence of reported errors the action stays as it is, its
  \<^verbatim>\<open>failure_count\<close> and its count of remediation runs included.
\<close>

theorem exhausted_action_never_runs:
  assumes "addr < length (action_store m)"
    and "max_attempts (action_store m ! addr) \<le> failure_count (action_store m ! addr)"
  shows "execute now recover (action_store m ! addr) ev = (action_store m ! addr, Inr False) \<and>
         action_store (handle_errors reports m) ! addr = action_store m ! addr"
proof -
  have "action_store (handle_errors reports m) ! addr = action_store m ! addr \<and>
        length (action_store (handle_errors reports m)) = length (action_store m)"
    using assms
  proof (induction reports arbitrary: m)
    case Nil
    show ?case by (simp add: handle_errors_def)
  next
    case (Cons r rs)
    obtain t rc c e sev where r: "r = (t, rc, c, e, sev)" by (cases r)
    from handle_error_keeps_exhausted [OF Cons.prems, of t rc c e sev]
    have step: "action_store (handle_error t rc c e sev m) ! addr = action_store m ! addr"
      "length (action_store (handle_error t rc c e sev m)) = length (action_store m)" by simp_all
    with Cons.prems have p: "addr < length (action_store (handle_error t rc c e sev m))"
      "max_attempts (action_store (handle_error t rc c e sev m) ! addr)
         \<le> failure_count (action_store (handle_error t rc c e sev m) ! addr)" by simp_all
    from Cons.IH [OF p] step show ?case
      by (simp add: handle_errors_def r)
  qed
  moreover have "execute now recover (action_store m ! addr) ev = (action_store m ! addr, Inr False)"
    using assms(2) by (simp add: execute_def can_attempt_exhausted)
  ultimately show ?thesis by simp
qed

lemma exhausted_store:
  "action_store exhausted_manager =
     [\<lparr>ra_name = ''restart_miner'', max_attempts = 3, ra_cooldown = 30, last_attempt = 3000,
       success_count = 0, failure_count = 3, recover_calls = 3\<rparr>]"
  by code_simp

theorem exhausted_action_witness:
  "failure_count (action_store exhausted_manager ! 0) = 3 \<and>
   max_attempts (action_store exhausted_manager ! 0) = 3 \<and>
   4000 - last_attempt (action_store exhausted_manager ! 0) > ra_cooldown (action_store exhausted_manager ! 0) \<and>
   recover_calls (action_store
      (handle_errors [(4000, always Recovered, ''mining'', (''RuntimeError'', ''stalled''), MEDIUM)]
         exhausted_manager) ! 0) = 3 \<and>
   failure_count (action_store
      (handle_errors [(4000, always Recovered, ''mining'', (''RuntimeError'', ''stalled''), MEDIUM)]
         exhausted_manager) ! 0) = 3"
  using exhausted_action_never_runs [of 0 exhausted_manager 4000 "always Recovered" stalled
          "[(4000, always Recovered, ''mining'', (''RuntimeError'', ''stalled''), MEDIUM)]"]
  by (simp add: exhausted_store)



section \<open>Properties of the resource scaler\<close>









end
